theory Spec2Isabelle
  imports Main "HOL-Library.Multiset"
begin

section \<open>The PDF page editor of app.py\<close>

text \<open>
  The application keeps, for every session identifier \<open>fid\<close>, two files in its upload
  directory: the PDF itself (\<open>fid.pdf\<close>) and a JSON record (\<open>fid.json\<close>) holding the
  original file name and, for every page still in the document, the page number it had
  when it was uploaded. Three request handlers change them: \<open>rotate\<close>, \<open>delete\<close> and
  \<open>move\<close>. The handlers are modelled as functions on an explicit file system.
\<close>

subsection \<open>Data\<close>

type_synonym path = string

text \<open>
  A page as PyMuPDF shows it to the program: an opaque content and the rotation that
  \<open>page.rotation\<close> reports.
\<close>

record page =
  content :: string
  rotation :: int

text \<open>
  A document: its pages in order, and whether the file carries an encryption envelope.
\<close>

record document =
  doc_pages :: "page list"
  encrypted :: bool

text \<open>The metadata record \<open>{"filename": ..., "pages": [...]}\<close>.\<close>

record meta =
  filename :: string
  pages :: "int list"

text \<open>
  What a file holds: a PDF, a metadata record, or any other bytes (which neither
  \<open>fitz.open\<close> nor \<open>json.load\<close> accepts).
\<close>

datatype stored = Pdf document | Json meta | Bytes string

datatype error =
  FileNotFoundError | FileDataError | JSONDecodeError | IndexError | ValueError
  | PermissionError

datatype encryption = PDF_ENCRYPT_KEEP | PDF_ENCRYPT_NONE

text \<open>The write calls a handler performs, as they appear in the source.\<close>

datatype call =
  FileSave path
  | DocSave path bool bool encryption
    \<comment> \<open>\<open>doc.save(path, incremental=..., deflate=..., encryption=...)\<close>\<close>
  | OsReplace path path
  | JsonDump path
  | OsRemove path

text \<open>
  The world a handler runs in: the files by path, the paths that cannot be opened for
  writing, and the write calls performed so far (oldest first).
\<close>

record world =
  files :: "path \<Rightarrow> stored option"
  readonly :: "path \<Rightarrow> bool"
  calls :: "call list"

text \<open>
  The form field \<open>to\<close> of a move request, as \<open>int(request.form.get("to", from_idx))\<close>
  reads it: absent, present with a text that \<open>int()\<close> rejects, or present with a text
  that \<open>int()\<close> reads as the given integer.
\<close>

datatype form_field = Absent | Unparsable | Parsed int

text \<open>
  What a handler returns: a redirect to the edit page of a session, the rendered edit
  page (file name, page count, and label and rotation of every row), a plain response
  with an HTTP status (400 or 404), or the file sent as an attachment.
\<close>

datatype response =
  Redirect string
  | EditPage string string nat "(string \<times> int) list"
  | Status nat
  | SendFile stored string

subsection \<open>Python lists and strings\<close>

definition len :: "document \<Rightarrow> int" where
  "len doc = int (length (doc_pages doc))"

text \<open>\<open>xs.pop(i)\<close>: the element and the rest; a negative index counts from the end.\<close>

definition list_pop :: "'a list \<Rightarrow> int \<Rightarrow> error + ('a \<times> 'a list)" where
  "list_pop xs i =
     (let n = int (length xs); j = (if i < 0 then i + n else i)
      in if 0 \<le> j \<and> j < n
         then Inr (xs ! nat j, take (nat j) xs @ drop (Suc (nat j)) xs)
         else Inl IndexError)"

text \<open>\<open>xs.insert(i, x)\<close>: never raises; the index is clamped to the list.\<close>

definition list_insert :: "'a list \<Rightarrow> int \<Rightarrow> 'a \<Rightarrow> 'a list" where
  "list_insert xs i x =
     (let n = int (length xs); j = (if i < 0 then max 0 (i + n) else min i n)
      in take (nat j) xs @ x # drop (nat j) xs)"

text \<open>\<open>s.lower()\<close>, on ASCII letters.\<close>

definition lower_char :: "char \<Rightarrow> char" where
  "lower_char c =
     (case map_of (zip ''ABCDEFGHIJKLMNOPQRSTUVWXYZ'' ''abcdefghijklmnopqrstuvwxyz'') c of
        None \<Rightarrow> c
      | Some l \<Rightarrow> l)"

definition lower :: "string \<Rightarrow> string" where
  "lower s = map lower_char s"

definition endswith :: "string \<Rightarrow> string \<Rightarrow> bool" where
  "endswith s suf = (length suf \<le> length s \<and> drop (length s - length suf) s = suf)"

text \<open>\<open>s.rsplit(".", 1)[0]\<close>: the text before the last dot, or all of it.\<close>

definition rsplit_head :: "string \<Rightarrow> string" where
  "rsplit_head s =
     (if CHR ''.'' \<in> set s
      then rev (tl (dropWhile (\<lambda>c. c \<noteq> CHR ''.'') (rev s)))
      else s)"

text \<open>\<open>str(i)\<close>: the decimal digits, with a minus sign for a negative number.\<close>

fun digits :: "nat \<Rightarrow> string" where
  "digits n =
     (if n < 10 then [''0123456789'' ! n]
      else digits (n div 10) @ [''0123456789'' ! (n mod 10)])"

declare digits.simps [simp del]

definition str_int :: "int \<Rightarrow> string" where
  "str_int i = (if i < 0 then CHR ''-'' # digits (nat (- i)) else digits (nat i))"

subsection \<open>Files\<close>

definition UPLOAD_DIR :: path where
  "UPLOAD_DIR = ''uploads''"

definition pdf_path :: "string \<Rightarrow> path" where
  "pdf_path fid = UPLOAD_DIR @ ''/'' @ fid @ ''.pdf''"

definition meta_path :: "string \<Rightarrow> path" where
  "meta_path fid = UPLOAD_DIR @ ''/'' @ fid @ ''.json''"

definition exists :: "world \<Rightarrow> path \<Rightarrow> bool" where
  "exists w p = (files w p \<noteq> None)"

text \<open>Opening a path for writing and storing a file there.\<close>

definition write_file :: "world \<Rightarrow> path \<Rightarrow> stored \<Rightarrow> call \<Rightarrow> error + world" where
  "write_file w p f c =
     (if readonly w p then Inl PermissionError
      else Inr (w\<lparr>files := (files w)(p \<mapsto> f), calls := calls w @ [c]\<rparr>))"

text \<open>\<open>os.replace(src, dst)\<close>: an atomic rename.\<close>

definition os_replace :: "world \<Rightarrow> path \<Rightarrow> path \<Rightarrow> error + world" where
  "os_replace w src dst =
     (case files w src of
        None \<Rightarrow> Inl FileNotFoundError
      | Some f \<Rightarrow>
          Inr (w\<lparr>files := (files w)(src := None, dst \<mapsto> f),
                 calls := calls w @ [OsReplace src dst]\<rparr>))"

definition os_remove :: "world \<Rightarrow> path \<Rightarrow> error + world" where
  "os_remove w p =
     (case files w p of
        None \<Rightarrow> Inl FileNotFoundError
      | Some f \<Rightarrow> Inr (w\<lparr>files := (files w)(p := None), calls := calls w @ [OsRemove p]\<rparr>))"

subsection \<open>PyMuPDF\<close>

definition fitz_open :: "world \<Rightarrow> path \<Rightarrow> error + document" where
  "fitz_open w p =
     (case files w p of
        None \<Rightarrow> Inl FileNotFoundError
      | Some (Pdf d) \<Rightarrow> Inr d
      | Some _ \<Rightarrow> Inl FileDataError)"

definition set_rotation :: "page \<Rightarrow> int \<Rightarrow> page" where
  "set_rotation p r = p\<lparr>rotation := r\<rparr>"

text \<open>\<open>doc.delete_page(i)\<close>, for the page numbers the handler passes.\<close>

definition delete_page :: "document \<Rightarrow> int \<Rightarrow> error + document" where
  "delete_page doc i =
     (if 0 \<le> i \<and> i < len doc
      then Inr (doc\<lparr>doc_pages := take (nat i) (doc_pages doc) @ drop (Suc (nat i)) (doc_pages doc)\<rparr>)
      else Inl ValueError)"

text \<open>\<open>doc.select(order)\<close>: keep the listed pages, in the listed order.\<close>

definition select :: "document \<Rightarrow> int list \<Rightarrow> error + document" where
  "select doc order =
     (if list_all (\<lambda>i. 0 \<le> i \<and> i < len doc) order
      then Inr (doc\<lparr>doc_pages := map (\<lambda>i. doc_pages doc ! nat i) order\<rparr>)
      else Inl ValueError)"

text \<open>
  \<open>doc.save(path, incremental, deflate, encryption)\<close>. \<open>PDF_ENCRYPT_KEEP\<close> leaves the
  encryption envelope as it is; \<open>PDF_ENCRYPT_NONE\<close>, the default, writes the file
  without one.
\<close>

definition doc_save :: "world \<Rightarrow> document \<Rightarrow> path \<Rightarrow> bool \<Rightarrow> bool \<Rightarrow> encryption \<Rightarrow> error + world" where
  "doc_save w doc p incremental deflate enc =
     write_file w p
       (Pdf (case enc of PDF_ENCRYPT_KEEP \<Rightarrow> doc | PDF_ENCRYPT_NONE \<Rightarrow> doc\<lparr>encrypted := False\<rparr>))
       (DocSave p incremental deflate enc)"

subsection \<open>Metadata\<close>

definition load_meta :: "world \<Rightarrow> string \<Rightarrow> int \<Rightarrow> error + meta" where
  "load_meta w fid n =
     (let path = meta_path fid
      in if exists w path
         then (case files w path of Some (Json m) \<Rightarrow> Inr m | _ \<Rightarrow> Inl JSONDecodeError)
         else Inr \<lparr>filename = ''unknown.pdf'', pages = [1..n]\<rparr>)"

definition save_meta :: "world \<Rightarrow> string \<Rightarrow> meta \<Rightarrow> error + world" where
  "save_meta w fid m = write_file w (meta_path fid) (Json m) (JsonDump (meta_path fid))"

text \<open>
  \<open>_get_page_info\<close>: one row per page of the document, labelled with the entry of
  \<open>original_pages\<close> at the same position; \<open>original_pages[i]\<close> raises when the list is
  shorter than the document.
\<close>

fun get_page_info :: "page list \<Rightarrow> int list \<Rightarrow> error + (string \<times> int) list" where
  "get_page_info [] original_pages = Inr []"
| "get_page_info (p # ps) [] = Inl IndexError"
| "get_page_info (p # ps) (k # ks) =
     (case get_page_info ps ks of
        Inl e \<Rightarrow> Inl e
      | Inr info \<Rightarrow> Inr ((''p.'' @ str_int k, rotation p) # info))"

subsection \<open>Request handlers\<close>

text \<open>
  Every handler takes the world and returns the world it leaves and either a response or
  the exception it did not catch.
\<close>

definition upload :: "world \<Rightarrow> string \<Rightarrow> (string \<times> stored) option \<Rightarrow> world \<times> (error + response)" where
  "upload w fid f =
     (case f of
        None \<Rightarrow> (w, Inr (Status 400))
      | Some (fname, data) \<Rightarrow>
          if fname = [] \<or> \<not> endswith (lower fname) ''.pdf'' then (w, Inr (Status 400))
          else
            (let path = pdf_path fid
             in case write_file w path data (FileSave path) of
                  Inl e \<Rightarrow> (w, Inl e)
                | Inr w1 \<Rightarrow>
                    (let original_name = rsplit_head fname
                     in case fitz_open w1 path of
                          Inl e \<Rightarrow> (w1, Inl e)
                        | Inr doc \<Rightarrow>
                            (case save_meta w1 fid
                                    \<lparr>filename = original_name, pages = [1..len doc]\<rparr> of
                               Inl e \<Rightarrow> (w1, Inl e)
                             | Inr w2 \<Rightarrow> (w2, Inr (Redirect fid))))))"

definition edit :: "world \<Rightarrow> string \<Rightarrow> error + response" where
  "edit w fid =
     (let path = pdf_path fid
      in if \<not> exists w path then Inr (Status 404)
         else
           (case fitz_open w path of
              Inl e \<Rightarrow> Inl e
            | Inr doc \<Rightarrow>
                (case load_meta w fid (len doc) of
                   Inl e \<Rightarrow> Inl e
                 | Inr m \<Rightarrow>
                     (case get_page_info (doc_pages doc) (pages m) of
                        Inl e \<Rightarrow> Inl e
                      | Inr page_info \<Rightarrow>
                          Inr (EditPage fid (filename m @ ''.pdf'') (length page_info) page_info)))))"

definition rotate :: "world \<Rightarrow> string \<Rightarrow> int \<Rightarrow> world \<times> (error + response)" where
  "rotate w fid page_idx =
     (let path = pdf_path fid
      in case fitz_open w path of
           Inl e \<Rightarrow> (w, Inl e)
         | Inr doc \<Rightarrow>
             if 0 \<le> page_idx \<and> page_idx < len doc then
               (let page = doc_pages doc ! nat page_idx;
                    doc' = doc\<lparr>doc_pages := (doc_pages doc)
                             [nat page_idx := set_rotation page ((rotation page + 90) mod 360)]\<rparr>
                in case doc_save w doc' path True False PDF_ENCRYPT_KEEP of
                     Inl e \<Rightarrow> (w, Inl e)
                   | Inr w1 \<Rightarrow> (w1, Inr (Redirect fid)))
             else (w, Inr (Redirect fid)))"

definition delete :: "world \<Rightarrow> string \<Rightarrow> int \<Rightarrow> world \<times> (error + response)" where
  "delete w fid page_idx =
     (let path = pdf_path fid
      in case fitz_open w path of
           Inl e \<Rightarrow> (w, Inl e)
         | Inr doc \<Rightarrow>
             (let n = len doc
              in if 0 \<le> page_idx \<and> page_idx < n \<and> n > 1 then
                   (case delete_page doc page_idx of
                      Inl e \<Rightarrow> (w, Inl e)
                    | Inr doc1 \<Rightarrow>
                        (let tmp = path @ ''.tmp''
                         in case doc_save w doc1 tmp False True PDF_ENCRYPT_NONE of
                              Inl e \<Rightarrow> (w, Inl e)
                            | Inr w1 \<Rightarrow>
                                (case os_replace w1 tmp path of
                                   Inl e \<Rightarrow> (w1, Inl e)
                                 | Inr w2 \<Rightarrow>
                                     (case load_meta w2 fid n of
                                        Inl e \<Rightarrow> (w2, Inl e)
                                      | Inr m \<Rightarrow>
                                          (case list_pop (pages m) page_idx of
                                             Inl e \<Rightarrow> (w2, Inl e)
                                           | Inr (x, rest) \<Rightarrow>
                                               (case save_meta w2 fid (m\<lparr>pages := rest\<rparr>) of
                                                  Inl e \<Rightarrow> (w2, Inl e)
                                                | Inr w3 \<Rightarrow> (w3, Inr (Redirect fid))))))))
                 else (w, Inr (Redirect fid))))"

definition move :: "world \<Rightarrow> string \<Rightarrow> int \<Rightarrow> form_field \<Rightarrow> world \<times> (error + response)" where
  "move w fid from_idx to_field =
     (let path = pdf_path fid
      in case (case to_field of
                 Absent \<Rightarrow> Inr from_idx
               | Unparsable \<Rightarrow> Inl ValueError
               | Parsed t \<Rightarrow> Inr t) of
           Inl e \<Rightarrow> (w, Inl e)
         | Inr to_idx \<Rightarrow>
             (case fitz_open w path of
                Inl e \<Rightarrow> (w, Inl e)
              | Inr doc \<Rightarrow>
                  (let n = len doc
                   in if 0 \<le> from_idx \<and> from_idx < n \<and> 0 \<le> to_idx \<and> to_idx < n
                         \<and> from_idx \<noteq> to_idx then
                        (case list_pop [0..n - 1] from_idx of
                           Inl e \<Rightarrow> (w, Inl e)
                         | Inr (i, order0) \<Rightarrow>
                             (let order = list_insert order0 to_idx i
                              in case select doc order of
                                   Inl e \<Rightarrow> (w, Inl e)
                                 | Inr doc1 \<Rightarrow>
                                     (let tmp = path @ ''.tmp''
                                      in case doc_save w doc1 tmp False True PDF_ENCRYPT_NONE of
                                           Inl e \<Rightarrow> (w, Inl e)
                                         | Inr w1 \<Rightarrow>
                                             (case os_replace w1 tmp path of
                                                Inl e \<Rightarrow> (w1, Inl e)
                                              | Inr w2 \<Rightarrow>
                                                  (case load_meta w2 fid n of
                                                     Inl e \<Rightarrow> (w2, Inl e)
                                                   | Inr m \<Rightarrow>
                                                       (case list_pop (pages m) from_idx of
                                                          Inl e \<Rightarrow> (w2, Inl e)
                                                        | Inr (x, rest) \<Rightarrow>
                                                            (case save_meta w2 fid
                                                                    (m\<lparr>pages := list_insert rest to_idx x\<rparr>) of
                                                               Inl e \<Rightarrow> (w2, Inl e)
                                                             | Inr w3 \<Rightarrow> (w3, Inr (Redirect fid)))))))))
                      else (w, Inr (Redirect fid)))))"

text \<open>
  \<open>download\<close>: the response is the file as it is; the clean-up that runs after the
  response removes the PDF and, when it exists, the metadata, ignoring \<open>OSError\<close>.
\<close>

definition cleanup :: "world \<Rightarrow> string \<Rightarrow> world" where
  "cleanup w fid =
     (case os_remove w (pdf_path fid) of
        Inl e \<Rightarrow> w
      | Inr w1 \<Rightarrow>
          if exists w1 (meta_path fid)
          then (case os_remove w1 (meta_path fid) of Inl e \<Rightarrow> w1 | Inr w2 \<Rightarrow> w2)
          else w1)"

definition download :: "world \<Rightarrow> string \<Rightarrow> world \<times> (error + response)" where
  "download w fid =
     (let path = pdf_path fid
      in if \<not> exists w path then (w, Inr (Status 404))
         else
           (case load_meta w fid 0 of
              Inl e \<Rightarrow> (w, Inl e)
            | Inr m \<Rightarrow>
                (case files w path of
                   None \<Rightarrow> (w, Inl FileNotFoundError)
                 | Some f \<Rightarrow> (cleanup w fid, Inr (SendFile f (filename m @ ''_edited.pdf''))))))"

subsection \<open>Specification-level notions and sample data\<close>

definition pop_then_insert :: "'a list \<Rightarrow> nat \<Rightarrow> nat \<Rightarrow> 'a list" where
  "pop_then_insert xs f t =
     (let x = xs ! f; ys = take f xs @ drop (Suc f) xs in take t ys @ x # drop t ys)"

definition rewritten :: "world \<Rightarrow> string \<Rightarrow> document \<Rightarrow> world" where
  "rewritten w fid doc1 =
     w\<lparr>files := (files w)(pdf_path fid @ ''.tmp'' := None,
                          pdf_path fid \<mapsto> Pdf (doc1\<lparr>encrypted := False\<rparr>)),
       calls := calls w @ [DocSave (pdf_path fid @ ''.tmp'') False True PDF_ENCRYPT_NONE,
                           OsReplace (pdf_path fid @ ''.tmp'') (pdf_path fid)]\<rparr>"

definition valid_rotation :: "int \<Rightarrow> bool" where
  "valid_rotation r = (r = 0 \<or> r = 90 \<or> r = 180 \<or> r = 270)"

datatype request = Rotate int | Delete int | Move int form_field

definition handle :: "world \<Rightarrow> string \<Rightarrow> request \<Rightarrow> world \<times> (error + response)" where
  "handle w fid r =
     (case r of
        Rotate i \<Rightarrow> rotate w fid i
      | Delete i \<Rightarrow> delete w fid i
      | Move i to_field \<Rightarrow> move w fid i to_field)"

fun run :: "world \<Rightarrow> string \<Rightarrow> request list \<Rightarrow> world" where
  "run w fid [] = w"
| "run w fid (r # rs) = run (fst (handle w fid r)) fid rs"

definition session_inv :: "document \<Rightarrow> world \<Rightarrow> string \<Rightarrow> bool" where
  "session_inv d0 w fid =
     (case files w (pdf_path fid) of
        Some (Pdf d) \<Rightarrow>
          (case files w (meta_path fid) of
             Some (Json m) \<Rightarrow>
                length (pages m) = length (doc_pages d)
              \<and> map content (doc_pages d) = map (\<lambda>k. content (doc_pages d0 ! nat (k - 1))) (pages m)
              \<and> distinct (pages m)
              \<and> list_all (\<lambda>k. 1 \<le> k \<and> k \<le> len d0) (pages m)
              \<and> list_all (\<lambda>p. valid_rotation (rotation p)) (doc_pages d)
           | _ \<Rightarrow> False)
      | _ \<Rightarrow> False)"

definition no_files :: world where
  "no_files = \<lparr>files = (\<lambda>p. None), readonly = (\<lambda>p. False), calls = []\<rparr>"

definition sample_doc :: document where
  "sample_doc =
     \<lparr>doc_pages = [\<lparr>content = ''A'', rotation = 0\<rparr>,
                   \<lparr>content = ''B'', rotation = 90\<rparr>,
                   \<lparr>content = ''C'', rotation = 0\<rparr>],
      encrypted = True\<rparr>"

definition sample_world :: world where
  "sample_world =
     \<lparr>files = [pdf_path ''s1'' \<mapsto> Pdf sample_doc,
               meta_path ''s1'' \<mapsto> Json \<lparr>filename = ''report'', pages = [1, 2, 3]\<rparr>],
      readonly = (\<lambda>p. False),
      calls = []\<rparr>"

section \<open>Lemmas\<close>

lemma list_pop_in_range:
  "0 \<le> i \<Longrightarrow> i < int (length xs) \<Longrightarrow>
     list_pop xs i = Inr (xs ! nat i, take (nat i) xs @ drop (Suc (nat i)) xs)"
  by (simp add: list_pop_def)

lemma list_pop_out_of_range:
  "0 \<le> i \<Longrightarrow> int (length xs) \<le> i \<Longrightarrow> list_pop xs i = Inl IndexError"
  by (simp add: list_pop_def)

lemma list_insert_in_range:
  "0 \<le> i \<Longrightarrow> i \<le> int (length xs) \<Longrightarrow>
     list_insert xs i x = take (nat i) xs @ x # drop (nat i) xs"
  by (simp add: list_insert_def min_def)

lemma pop_insert_is_pop_then_insert:
  assumes "0 \<le> f" "f < int (length xs)" "0 \<le> t" "t < int (length xs)"
  shows "list_pop xs f = Inr (xs ! nat f, take (nat f) xs @ drop (Suc (nat f)) xs)"
    and "list_insert (take (nat f) xs @ drop (Suc (nat f)) xs) t (xs ! nat f)
           = pop_then_insert xs (nat f) (nat t)"
proof -
  show "list_pop xs f = Inr (xs ! nat f, take (nat f) xs @ drop (Suc (nat f)) xs)"
    using assms by (simp add: list_pop_in_range)
  have "t \<le> int (length (take (nat f) xs @ drop (Suc (nat f)) xs))"
    using assms by simp
  then show "list_insert (take (nat f) xs @ drop (Suc (nat f)) xs) t (xs ! nat f)
           = pop_then_insert xs (nat f) (nat t)"
    using assms by (simp only: list_insert_in_range pop_then_insert_def Let_def)
qed

lemma length_pop_then_insert:
  "f < length xs \<Longrightarrow> length (pop_then_insert xs f t) = length xs"
  by (simp add: pop_then_insert_def Let_def)

lemma map_pop_then_insert:
  "f < length xs \<Longrightarrow> map g (pop_then_insert xs f t) = pop_then_insert (map g xs) f t"
  by (simp add: pop_then_insert_def Let_def take_map drop_map)

lemma mset_pop_then_insert:
  assumes "f < length xs"
  shows "mset (pop_then_insert xs f t) = mset xs"
proof -
  let ?ys = "take f xs @ drop (Suc f) xs"
  have "mset (pop_then_insert xs f t) = mset (take t ?ys @ drop t ?ys) + {#xs ! f#}"
    unfolding pop_then_insert_def Let_def by (simp only: mset_append mset.simps) simp
  also have "\<dots> = mset ?ys + {#xs ! f#}" by (simp only: append_take_drop_id)
  also have "\<dots> = mset (take f xs @ xs ! f # drop (Suc f) xs)" by simp
  also have "\<dots> = mset xs" using assms by (simp only: id_take_nth_drop [symmetric])
  finally show ?thesis .
qed

lemma set_pop_then_insert:
  "f < length xs \<Longrightarrow> set (pop_then_insert xs f t) = set xs"
  using mset_pop_then_insert [of f xs t] by (metis set_mset_mset)

lemma distinct_pop_then_insert:
  "f < length xs \<Longrightarrow> distinct (pop_then_insert xs f t) = distinct xs"
  using mset_pop_then_insert [of f xs t] by (metis mset_eq_imp_distinct_iff)

lemma nth_at_insert: "length us = t \<Longrightarrow> (us @ x # vs) ! t = x"
  by auto

lemma take_at_insert: "length us = t \<Longrightarrow> take t (us @ x # vs) = us"
  by auto

lemma drop_after_insert: "length us = t \<Longrightarrow> drop (Suc t) (us @ x # vs) = vs"
  by auto

lemma pop_then_insert_inverse:
  assumes "f < length xs" "t < length xs"
  shows "pop_then_insert (pop_then_insert xs f t) t f = xs"
proof -
  let ?ys = "take f xs @ drop (Suc f) xs"
  let ?zs = "take t ?ys @ xs ! f # drop t ?ys"
  have ly: "length ?ys = length xs - 1" using assms by simp
  have lt: "length (take t ?ys) = t" using assms ly by simp
  have nth: "?zs ! t = xs ! f" using lt by (rule nth_at_insert)
  have tk: "take t ?zs = take t ?ys" using lt by (rule take_at_insert)
  have dr: "drop (Suc t) ?zs = drop t ?ys" using lt by (rule drop_after_insert)
  have "pop_then_insert ?zs t f = take f ?ys @ xs ! f # drop f ?ys"
    unfolding pop_then_insert_def Let_def by (simp only: nth tk dr append_take_drop_id)
  also have "\<dots> = take f xs @ xs ! f # drop (Suc f) xs" using assms by simp
  also have "\<dots> = xs" using assms by (simp only: id_take_nth_drop [symmetric])
  finally show ?thesis by (simp only: pop_then_insert_def Let_def)
qed

lemma map_nth_range:
  "map (\<lambda>i. ps ! nat i) [0..int (length ps) - 1] = ps"
  by (rule nth_equalityI) simp_all

lemma neq_by_last: "last a \<noteq> last b \<Longrightarrow> a \<noteq> b"
  by auto

lemma tmp_neq_pdf [simp]:
  "pdf_path fid @ ''.tmp'' \<noteq> pdf_path fid'" "pdf_path fid' \<noteq> pdf_path fid @ ''.tmp''"
  by (rule neq_by_last, simp add: pdf_path_def)+

lemma meta_neq_pdf [simp]:
  "meta_path fid \<noteq> pdf_path fid'" "pdf_path fid' \<noteq> meta_path fid"
  by (rule neq_by_last, simp add: pdf_path_def meta_path_def)+

lemma meta_neq_tmp [simp]:
  "meta_path fid \<noteq> pdf_path fid' @ ''.tmp''" "pdf_path fid' @ ''.tmp'' \<noteq> meta_path fid"
  by (rule neq_by_last, simp add: meta_path_def)+

lemma load_meta_cong:
  "files w' (meta_path fid) = files w (meta_path fid) \<Longrightarrow> load_meta w' fid n = load_meta w fid n"
  by (simp add: load_meta_def exists_def Let_def)

lemma delete_valid:
  assumes "files w (pdf_path fid) = Some (Pdf d)" "0 \<le> i" "i < len d" "1 < len d"
  shows "delete w fid i =
    (if readonly w (pdf_path fid @ ''.tmp'') then (w, Inl PermissionError)
     else
       (let w2 = rewritten w fid (d\<lparr>doc_pages := take (nat i) (doc_pages d) @ drop (Suc (nat i)) (doc_pages d)\<rparr>)
        in case load_meta w fid (len d) of
             Inl e \<Rightarrow> (w2, Inl e)
           | Inr m \<Rightarrow>
               (case list_pop (pages m) i of
                  Inl e \<Rightarrow> (w2, Inl e)
                | Inr (x, rest) \<Rightarrow>
                    if readonly w (meta_path fid) then (w2, Inl PermissionError)
                    else (w2\<lparr>files := (files w2)(meta_path fid \<mapsto> Json (m\<lparr>pages := rest\<rparr>)),
                             calls := calls w2 @ [JsonDump (meta_path fid)]\<rparr>, Inr (Redirect fid)))))"
proof -
  let ?d1 = "d\<lparr>doc_pages := take (nat i) (doc_pages d) @ drop (Suc (nat i)) (doc_pages d)\<rparr>"
  let ?tmp = "pdf_path fid @ ''.tmp''"
  have op: "fitz_open w (pdf_path fid) = Inr d" using assms(1) by (simp add: fitz_open_def)
  have dp: "delete_page d i = Inr ?d1" using assms by (simp add: delete_page_def)
  show ?thesis
  proof (cases "readonly w ?tmp")
    case True
    then show ?thesis using assms op dp
      by (simp add: delete_def Let_def doc_save_def write_file_def)
  next
    case False
    have sv: "doc_save w ?d1 ?tmp False True PDF_ENCRYPT_NONE =
        Inr (w\<lparr>files := (files w)(?tmp \<mapsto> Pdf (?d1\<lparr>encrypted := False\<rparr>)),
               calls := calls w @ [DocSave ?tmp False True PDF_ENCRYPT_NONE]\<rparr>)"
      using False by (simp add: doc_save_def write_file_def)
    have rp: "os_replace (w\<lparr>files := (files w)(?tmp \<mapsto> Pdf (?d1\<lparr>encrypted := False\<rparr>)),
               calls := calls w @ [DocSave ?tmp False True PDF_ENCRYPT_NONE]\<rparr>) ?tmp (pdf_path fid)
         = Inr (rewritten w fid ?d1)"
      by (simp add: os_replace_def rewritten_def)
    have lm: "load_meta (rewritten w fid ?d1) fid (len d) = load_meta w fid (len d)"
      by (rule load_meta_cong) (simp add: rewritten_def)
    have ro: "readonly (rewritten w fid ?d1) = readonly w" by (simp add: rewritten_def)
    show ?thesis using assms False
      by (simp add: delete_def Let_def op dp sv rp lm save_meta_def write_file_def ro
               split: sum.splits prod.splits)
  qed
qed

lemma select_order:
  assumes "0 \<le> f" "f < len d" "0 \<le> t" "t < len d"
  shows "select d (pop_then_insert [0..len d - 1] (nat f) (nat t)) =
           Inr (d\<lparr>doc_pages := pop_then_insert (doc_pages d) (nat f) (nat t)\<rparr>)"
proof -
  let ?r = "[0..len d - 1]"
  have lr: "nat f < length ?r" using assms by simp
  have "set (pop_then_insert ?r (nat f) (nat t)) = set ?r"
    using lr by (rule set_pop_then_insert)
  then have inr: "list_all (\<lambda>i. 0 \<le> i \<and> i < len d) (pop_then_insert ?r (nat f) (nat t))"
    by (simp add: list_all_iff)
  have "map (\<lambda>i. doc_pages d ! nat i) (pop_then_insert ?r (nat f) (nat t))
          = pop_then_insert (map (\<lambda>i. doc_pages d ! nat i) ?r) (nat f) (nat t)"
    using lr by (rule map_pop_then_insert)
  also have "map (\<lambda>i. doc_pages d ! nat i) ?r = doc_pages d"
    unfolding len_def by (rule map_nth_range)
  finally show ?thesis using inr by (simp add: select_def)
qed

lemma move_valid:
  assumes "files w (pdf_path fid) = Some (Pdf d)"
    "0 \<le> f" "f < len d" "0 \<le> t" "t < len d" "f \<noteq> t"
  shows "move w fid f (Parsed t) =
    (if readonly w (pdf_path fid @ ''.tmp'') then (w, Inl PermissionError)
     else
       (let w2 = rewritten w fid (d\<lparr>doc_pages := pop_then_insert (doc_pages d) (nat f) (nat t)\<rparr>)
        in case load_meta w fid (len d) of
             Inl e \<Rightarrow> (w2, Inl e)
           | Inr m \<Rightarrow>
               (case list_pop (pages m) f of
                  Inl e \<Rightarrow> (w2, Inl e)
                | Inr (x, rest) \<Rightarrow>
                    if readonly w (meta_path fid) then (w2, Inl PermissionError)
                    else (w2\<lparr>files := (files w2)(meta_path fid \<mapsto> Json (m\<lparr>pages := list_insert rest t x\<rparr>)),
                             calls := calls w2 @ [JsonDump (meta_path fid)]\<rparr>, Inr (Redirect fid)))))"
proof -
  let ?d1 = "d\<lparr>doc_pages := pop_then_insert (doc_pages d) (nat f) (nat t)\<rparr>"
  let ?tmp = "pdf_path fid @ ''.tmp''"
  let ?r = "[0..len d - 1]"
  have op: "fitz_open w (pdf_path fid) = Inr d" using assms(1) by (simp add: fitz_open_def)
  have fr: "f < int (length ?r)" and tr: "t < int (length ?r)" using assms by simp_all
  have nf: "?r ! nat f = f" using assms by simp
  have pp: "list_pop ?r f = Inr (f, take (nat f) ?r @ drop (Suc (nat f)) ?r)"
    using pop_insert_is_pop_then_insert(1) [OF assms(2) fr assms(4) tr] by (simp only: nf)
  have ins: "list_insert (take (nat f) ?r @ drop (Suc (nat f)) ?r) t f
               = pop_then_insert ?r (nat f) (nat t)"
    using pop_insert_is_pop_then_insert(2) [OF assms(2) fr assms(4) tr] by (simp only: nf)
  have sel: "select d (pop_then_insert ?r (nat f) (nat t)) = Inr ?d1"
    using assms(2-5) by (rule select_order)
  show ?thesis
  proof (cases "readonly w ?tmp")
    case True
    then show ?thesis using assms op
      by (simp add: move_def Let_def pp ins sel doc_save_def write_file_def del: upto.simps)
  next
    case False
    have sv: "doc_save w ?d1 ?tmp False True PDF_ENCRYPT_NONE =
        Inr (w\<lparr>files := (files w)(?tmp \<mapsto> Pdf (?d1\<lparr>encrypted := False\<rparr>)),
               calls := calls w @ [DocSave ?tmp False True PDF_ENCRYPT_NONE]\<rparr>)"
      using False by (simp add: doc_save_def write_file_def)
    have rp: "os_replace (w\<lparr>files := (files w)(?tmp \<mapsto> Pdf (?d1\<lparr>encrypted := False\<rparr>)),
               calls := calls w @ [DocSave ?tmp False True PDF_ENCRYPT_NONE]\<rparr>) ?tmp (pdf_path fid)
         = Inr (rewritten w fid ?d1)"
      by (simp add: os_replace_def rewritten_def)
    have lm: "load_meta (rewritten w fid ?d1) fid (len d) = load_meta w fid (len d)"
      by (rule load_meta_cong) (simp add: rewritten_def)
    have ro: "readonly (rewritten w fid ?d1) = readonly w" by (simp add: rewritten_def)
    show ?thesis using assms False
      by (simp add: move_def Let_def op pp ins sel sv rp lm save_meta_def write_file_def ro
               split: sum.splits prod.splits del: upto.simps)
  qed
qed

lemma rotate_valid:
  assumes "files w (pdf_path fid) = Some (Pdf d)" "0 \<le> i" "i < len d"
  shows "rotate w fid i =
    (if readonly w (pdf_path fid) then (w, Inl PermissionError)
     else (w\<lparr>files := (files w)(pdf_path fid \<mapsto>
                 Pdf (d\<lparr>doc_pages := (doc_pages d)[nat i :=
                        (doc_pages d ! nat i)\<lparr>rotation := (rotation (doc_pages d ! nat i) + 90) mod 360\<rparr>]\<rparr>)),
             calls := calls w @ [DocSave (pdf_path fid) True False PDF_ENCRYPT_KEEP]\<rparr>,
           Inr (Redirect fid)))"
  using assms
  by (simp add: rotate_def fitz_open_def Let_def doc_save_def write_file_def set_rotation_def)

lemma rotate_invalid:
  assumes "files w (pdf_path fid) = Some (Pdf d)" "\<not> (0 \<le> i \<and> i < len d)"
  shows "rotate w fid i = (w, Inr (Redirect fid))"
  using assms by (auto simp add: rotate_def fitz_open_def Let_def)

lemma delete_invalid:
  assumes "files w (pdf_path fid) = Some (Pdf d)" "\<not> (0 \<le> i \<and> i < len d \<and> 1 < len d)"
  shows "delete w fid i = (w, Inr (Redirect fid))"
  using assms by (auto simp add: delete_def fitz_open_def Let_def)

lemma move_invalid:
  assumes "files w (pdf_path fid) = Some (Pdf d)"
    "\<not> (0 \<le> f \<and> f < len d \<and> 0 \<le> t \<and> t < len d \<and> f \<noteq> t)"
  shows "move w fid f (Parsed t) = (w, Inr (Redirect fid))"
  using assms by (auto simp add: move_def fitz_open_def Let_def)

lemma move_absent:
  assumes "files w (pdf_path fid) = Some (Pdf d)"
  shows "move w fid f Absent = (w, Inr (Redirect fid))"
  using assms by (auto simp add: move_def fitz_open_def Let_def)

lemma session_invI:
  assumes "files w (pdf_path fid) = Some (Pdf d)" "files w (meta_path fid) = Some (Json m)"
    "length (pages m) = length (doc_pages d)"
    "map content (doc_pages d) = map (\<lambda>k. content (doc_pages d0 ! nat (k - 1))) (pages m)"
    "distinct (pages m)" "list_all (\<lambda>k. 1 \<le> k \<and> k \<le> len d0) (pages m)"
    "list_all (\<lambda>p. valid_rotation (rotation p)) (doc_pages d)"
  shows "session_inv d0 w fid"
  using assms by (simp add: session_inv_def)

lemma session_invE:
  assumes "session_inv d0 w fid"
  obtains d m where "files w (pdf_path fid) = Some (Pdf d)" "files w (meta_path fid) = Some (Json m)"
    "length (pages m) = length (doc_pages d)"
    "map content (doc_pages d) = map (\<lambda>k. content (doc_pages d0 ! nat (k - 1))) (pages m)"
    "distinct (pages m)" "list_all (\<lambda>k. 1 \<le> k \<and> k \<le> len d0) (pages m)"
    "list_all (\<lambda>p. valid_rotation (rotation p)) (doc_pages d)"
proof (cases "files w (pdf_path fid)")
  case None
  with assms show ?thesis by (simp add: session_inv_def)
next
  case sa: (Some a)
  show ?thesis
  proof (cases a)
    case pd: (Pdf d)
    show ?thesis
    proof (cases "files w (meta_path fid)")
      case None
      with assms sa pd show ?thesis by (simp add: session_inv_def)
    next
      case sb: (Some b)
      show ?thesis
      proof (cases b)
        case (Json m)
        with assms sa pd sb show ?thesis using that [of d m] by (simp add: session_inv_def)
      next
        case (Pdf x)
        with assms sa pd sb show ?thesis by (simp add: session_inv_def)
      next
        case (Bytes x)
        with assms sa pd sb show ?thesis by (simp add: session_inv_def)
      qed
    qed
  next
    case (Json x)
    with assms sa show ?thesis by (simp add: session_inv_def)
  next
    case (Bytes x)
    with assms sa show ?thesis by (simp add: session_inv_def)
  qed
qed

lemma upload_redirect:
  assumes "upload w fid (Some (name, Pdf d0)) = (w1, Inr (Redirect fid'))"
  shows "w1 = w\<lparr>files := (files w)(pdf_path fid \<mapsto> Pdf d0,
                   meta_path fid \<mapsto> Json \<lparr>filename = rsplit_head name, pages = [1..len d0]\<rparr>),
                calls := calls w @ [FileSave (pdf_path fid), JsonDump (meta_path fid)]\<rparr>"
    and "\<not> readonly w (pdf_path fid)" and "\<not> readonly w (meta_path fid)"
  using assms
  by (auto simp add: upload_def Let_def write_file_def fitz_open_def save_meta_def
        split: if_splits simp del: upto.simps)

lemma valid_rotation_step: "valid_rotation r \<Longrightarrow> valid_rotation ((r + 90) mod 360)"
  by (auto simp add: valid_rotation_def)

lemma distinct_remove_nth:
  assumes "distinct xs"
  shows "distinct (take i xs @ drop (Suc i) xs)"
proof -
  have "distinct (take i xs @ drop i xs)" using assms by simp
  then have "distinct (take i xs) \<and> distinct (drop i xs)
      \<and> set (take i xs) \<inter> set (drop i xs) = {}"
    by (simp only: distinct_append)
  then have a: "distinct (take i xs)" and c: "set (take i xs) \<inter> set (drop i xs) = {}"
    by blast+
  have s: "set (drop (Suc i) xs) \<subseteq> set (drop i xs)"
    by (rule set_drop_subset_set_drop) simp
  have b: "distinct (drop (Suc i) xs)" using assms by simp
  show ?thesis using a b c s by auto
qed

lemma list_all_remove_nth: "list_all P xs \<Longrightarrow> list_all P (take i xs @ drop (Suc i) xs)"
  by (auto simp add: list_all_iff dest: in_set_takeD in_set_dropD)

section \<open>The claims\<close>

text \<open>
  C7. Loading a session that does not exist should fail with a "not found" response, also
  as the first step of rotate, delete and move. The edit page answers 404 for a missing
  PDF; the three edit handlers open the file without that check, so the exception of
  \<open>fitz.open\<close> escapes them.
\<close>

theorem missing_session_edit_handlers_raise:
  "edit no_files ''s1'' = Inr (Status 404)
   \<and> download no_files ''s1'' = (no_files, Inr (Status 404))
   \<and> rotate no_files ''s1'' 0 = (no_files, Inl FileNotFoundError)
   \<and> delete no_files ''s1'' 0 = (no_files, Inl FileNotFoundError)
   \<and> move no_files ''s1'' 0 (Parsed 1) = (no_files, Inl FileNotFoundError)"
  by (simp add: no_files_def edit_def download_def rotate_def delete_def move_def
        exists_def fitz_open_def)

text \<open>
  C5. In a session whose PDF exists, an edit whose precondition is violated (an index out
  of range for rotate, delete or move; a delete on a document of one page; a move with
  equal indices) answers with the redirect, raises nothing and leaves the world, and so
  document and ledger, as it was.
\<close>

theorem violated_precondition_is_noop:
  assumes "files w (pdf_path fid) = Some (Pdf d)"
  shows "(\<not> (0 \<le> i \<and> i < len d) \<longrightarrow> rotate w fid i = (w, Inr (Redirect fid)))
       \<and> (\<not> (0 \<le> i \<and> i < len d) \<or> len d \<le> 1 \<longrightarrow> delete w fid i = (w, Inr (Redirect fid)))
       \<and> (\<not> (0 \<le> f \<and> f < len d) \<or> \<not> (0 \<le> t \<and> t < len d) \<or> f = t
            \<longrightarrow> move w fid f (Parsed t) = (w, Inr (Redirect fid)))"
proof (intro conjI impI)
  assume "\<not> (0 \<le> i \<and> i < len d)"
  with assms show "rotate w fid i = (w, Inr (Redirect fid))" by (simp add: rotate_invalid)
next
  assume "\<not> (0 \<le> i \<and> i < len d) \<or> len d \<le> 1"
  then have "\<not> (0 \<le> i \<and> i < len d \<and> 1 < len d)" by auto
  with assms show "delete w fid i = (w, Inr (Redirect fid))" by (rule delete_invalid)
next
  assume "\<not> (0 \<le> f \<and> f < len d) \<or> \<not> (0 \<le> t \<and> t < len d) \<or> f = t"
  then have "\<not> (0 \<le> f \<and> f < len d \<and> 0 \<le> t \<and> t < len d \<and> f \<noteq> t)" by auto
  with assms show "move w fid f (Parsed t) = (w, Inr (Redirect fid))" by (rule move_invalid)
qed

theorem violated_precondition_is_noop_witness:
  "files sample_world (pdf_path ''s1'') = Some (Pdf sample_doc)
   \<and> \<not> (0 \<le> (3::int) \<and> 3 < len sample_doc)
   \<and> rotate sample_world ''s1'' 3 = (sample_world, Inr (Redirect ''s1''))
   \<and> delete sample_world ''s1'' 3 = (sample_world, Inr (Redirect ''s1''))
   \<and> move sample_world ''s1'' 1 (Parsed 1) = (sample_world, Inr (Redirect ''s1''))"
proof -
  have h: "files sample_world (pdf_path ''s1'') = Some (Pdf sample_doc)"
    by (simp add: sample_world_def)
  have n: "\<not> (0 \<le> (3::int) \<and> 3 < len sample_doc)"
    by (simp add: sample_doc_def len_def)
  show ?thesis
    using h n violated_precondition_is_noop [OF h, of 3 1 1] by simp
qed

end
